theory Spec2Isabelle
  imports Complex_Main "HOL-Library.AList" "HOL-Library.Signed_Division"
begin

section \<open>Python exceptions as values\<close>

text \<open>
  The exceptions that the modelled functions of \<^verbatim>\<open>megaphone/base.py\<close> and
  \<^verbatim>\<open>megaphone/ticker.py\<close> can raise or let through. \<open>RPCError\<close> stands for any
  failure of the remote ledger call other than an \<open>IndexError\<close>.
\<close>

datatype py_error =
  TickerError | IndexError | KeyError | TypeError | ValueError | ZeroDivisionError | RPCError

section \<open>Account history (\<^verbatim>\<open>Account.virtual_op_count\<close>, \<^verbatim>\<open>Account.history\<close>, \<^verbatim>\<open>Account.history2\<close>)\<close>

subsection \<open>Data\<close>

text \<open>
  One element of the list returned by \<^verbatim>\<open>get_account_history\<close> is a pair
  \<^verbatim>\<open>[index, {'op': [op_type, op], 'timestamp': ..., 'trx_id': ...}]\<close>. The body of an
  operation is a mapping from field names to values, kept here as an association list
  of strings.
\<close>

record entry =
  entry_op :: "string \<times> (string \<times> string) list"
  entry_timestamp :: string
  entry_trx_id :: string

type_synonym item = "int \<times> entry"

text \<open>The dictionary built by the inner function \<^verbatim>\<open>construct_op\<close>.\<close>

record operation =
  index :: int
  trx_id :: string
  timestamp :: string
  op_type :: string
  op :: "(string \<times> string) list"

text \<open>
  The argument \<^verbatim>\<open>filter_by\<close>: \<^verbatim>\<open>None\<close>, a \<^verbatim>\<open>str\<close> or a \<^verbatim>\<open>list\<close> of operation types.
  These are the three shapes the source tests for (\<^verbatim>\<open>is None\<close>, \<^verbatim>\<open>type(..) is list\<close>,
  \<^verbatim>\<open>type(..) is str\<close>); the collection of tags of the contract is the list. A value of
  any other Python type passes none of the tests and is not a value of this type.
\<close>

datatype filter_by = FilterNone | FilterStr string | FilterList "string list"

text \<open>
  The remote call \<^verbatim>\<open>self.golos.rpc.get_account_history(self.account, i, limit)\<close> of one
  fixed account is a function of the index and the limit; it returns a batch or raises.
  The attribute \<^verbatim>\<open>golos\<close> is bound outside the code shown in \<^verbatim>\<open>base.py\<close>, so the
  capability is a parameter of every function below.
\<close>

type_synonym rpc = "int \<Rightarrow> int \<Rightarrow> py_error + item list"

text \<open>
  A generator is observed through what it yields and how it ends. \<open>Suspended\<close> is a
  generator that is still inside its \<^verbatim>\<open>while True\<close> loop when the observer stops
  fetching batches (the fuel of \<open>history_loop\<close> below). A run also records the remote
  calls it issued, as pairs (index, limit), oldest first.
\<close>

datatype outcome = Returned | Raised py_error | Suspended

type_synonym run = "operation list \<times> (int \<times> int) list \<times> outcome"

definition yielded :: "run \<Rightarrow> operation list" where
  "yielded r = fst r"

definition calls :: "run \<Rightarrow> (int \<times> int) list" where
  "calls r = fst (snd r)"

definition ending :: "run \<Rightarrow> outcome" where
  "ending r = snd (snd r)"

subsection \<open>The code\<close>

definition batch_size :: int where
  "batch_size = 1000"

text \<open>
  \<^verbatim>\<open>virtual_op_count\<close>: the index carried by the first element of a fetch with index
  \<open>-1\<close> and limit \<open>0\<close>. An \<open>IndexError\<close> raised anywhere in the \<^verbatim>\<open>try\<close> block (the
  empty list indexed at 0, or the call itself) is caught and gives 0; every other
  exception passes through.
\<close>

definition virtual_op_count :: "rpc \<Rightarrow> py_error + int" where
  "virtual_op_count rpc =
     (case rpc (- 1) 0 of
        Inl e \<Rightarrow> (if e = IndexError then Inr 0 else Inl e)
      | Inr [] \<Rightarrow> Inr 0
      | Inr (first # rest) \<Rightarrow> Inr (fst first))"

definition construct_op :: "item \<Rightarrow> operation" where
  "construct_op item =
     \<lparr> index = fst item,
       trx_id = entry_trx_id (snd item),
       timestamp = entry_timestamp (snd item),
       op_type = fst (entry_op (snd item)),
       op = snd (entry_op (snd item)) \<rparr>"

text \<open>What the body of the \<^verbatim>\<open>for\<close> loop yields for one item that passed the index test.\<close>

definition yield_item :: "filter_by \<Rightarrow> item \<Rightarrow> operation list" where
  "yield_item filter_by item =
     (case filter_by of
        FilterNone \<Rightarrow> [construct_op item]
      | FilterList tags \<Rightarrow>
          (if fst (entry_op (snd item)) \<in> set tags then [construct_op item] else [])
      | FilterStr tag \<Rightarrow>
          (if fst (entry_op (snd item)) = tag then [construct_op item] else []))"

text \<open>
  The \<^verbatim>\<open>for item in history\<close> loop over one batch. The flag is \<open>True\<close> when the loop
  left the generator through \<^verbatim>\<open>return\<close> (an item with \<open>index \<ge> max_index\<close>).
\<close>

fun for_items :: "filter_by \<Rightarrow> int \<Rightarrow> item list \<Rightarrow> operation list \<times> bool" where
  "for_items filter_by max_index [] = ([], False)"
| "for_items filter_by max_index (item # rest) =
     (if fst item \<ge> max_index then ([], True)
      else (case for_items filter_by max_index rest of
              (ys, stop) \<Rightarrow> (yield_item filter_by item @ ys, stop)))"

text \<open>
  The \<^verbatim>\<open>while True\<close> loop, one batch per unit of fuel. The loop has no exit of its own:
  it ends only through the \<^verbatim>\<open>return\<close> inside the \<^verbatim>\<open>for\<close> loop or through an
  exception of the remote call.
\<close>

fun history_loop :: "rpc \<Rightarrow> nat \<Rightarrow> filter_by \<Rightarrow> int \<Rightarrow> int \<Rightarrow> int \<Rightarrow> run" where
  "history_loop rpc 0 filter_by max_index start_index i = ([], [], Suspended)"
| "history_loop rpc (Suc fuel) filter_by max_index start_index i =
     (let limit = (if i = start_index then batch_size else batch_size - 1) in
      case rpc i limit of
        Inl e \<Rightarrow> ([], [(i, limit)], Raised e)
      | Inr history \<Rightarrow>
          (case for_items filter_by max_index history of
             (ys, True) \<Rightarrow> (ys, [(i, limit)], Returned)
           | (ys, False) \<Rightarrow>
               (case history_loop rpc fuel filter_by max_index start_index (i + batch_size) of
                  (zs, cs, out) \<Rightarrow> (ys @ zs, (i, limit) # cs, out))))"

definition history :: "rpc \<Rightarrow> nat \<Rightarrow> filter_by \<Rightarrow> int \<Rightarrow> run" where
  "history rpc fuel filter_by start =
     (case virtual_op_count rpc of
        Inl e \<Rightarrow> ([], [(- 1, 0)], Raised e)
      | Inr max_index \<Rightarrow>
          if max_index = 0 then ([], [(- 1, 0)], Returned)
          else
            (let start_index = start + batch_size in
             case history_loop rpc fuel filter_by max_index start_index start_index of
               (ys, cs, out) \<Rightarrow> (ys, (- 1, 0) # cs, out)))"

text \<open>
  \<^verbatim>\<open>history2\<close> is an ordinary function: it asks for the operation count when it is
  called and hands back the generator of \<^verbatim>\<open>history\<close>, which asks again when it is
  first advanced.
\<close>

definition history2 :: "rpc \<Rightarrow> nat \<Rightarrow> filter_by \<Rightarrow> int \<Rightarrow> run" where
  "history2 rpc fuel filter_by take_n =
     (case virtual_op_count rpc of
        Inl e \<Rightarrow> ([], [(- 1, 0)], Raised e)
      | Inr max_index \<Rightarrow>
          (let start_index = max_index - take_n;
               start_index = (if start_index < 0 then 0 else start_index)
           in case history rpc fuel filter_by start_index of
                (ys, cs, out) \<Rightarrow> (ys, (- 1, 0) # cs, out)))"

subsection \<open>The remote ledger\<close>

text \<open>
  Modelled from the spec: the remote node that answers \<^verbatim>\<open>get_account_history\<close> is not
  code of this repository. An account's log is the list of its entries, the entry at
  position \<open>k\<close> carrying index \<open>k\<close> (strictly increasing, no gaps). \<open>ledger_item\<close> is
  only applied to positions inside the log.
\<close>

definition ledger_item :: "entry list \<Rightarrow> int \<Rightarrow> item" where
  "ledger_item oplog k = (k, oplog ! nat k)"

text \<open>
  Modelled from the spec: a fetch returns the entries ending at the requested index,
  inclusive, and reaching back \<open>limit\<close> entries before it (so \<open>limit + 1\<close> entries where the
  log has them); a negative index asks from the tail of the log.
\<close>

definition get_account_history :: "entry list \<Rightarrow> rpc" where
  "get_account_history oplog idx limit =
     (let last_index = int (length oplog) - 1;
          ending_at = (if idx < 0 then last_index else idx)
      in Inr (map (ledger_item oplog) [max 0 (ending_at - limit) .. min ending_at last_index]))"

section \<open>Reward arithmetic (\<^verbatim>\<open>Converter\<close>)\<close>


definition vests_to_power :: "rat \<Rightarrow> rat \<Rightarrow> rat" where
  "vests_to_power steem_per_mvests vests = vests * steem_per_mvests / 1000000"

definition sp_to_vests :: "rat \<Rightarrow> rat \<Rightarrow> py_error + rat" where
  "sp_to_vests steem_per_mvests sp =
     (if steem_per_mvests = 0 then Inl ZeroDivisionError
      else Inr (sp * 1000000 / steem_per_mvests))"




section \<open>Ticker (\<^verbatim>\<open>Ticker.get_ticker_symbol\<close>, \<^verbatim>\<open>Ticker.price\<close>)\<close>

subsection \<open>Strings\<close>

text \<open>\<^verbatim>\<open>sub in s\<close> on strings: \<open>sub\<close> occurs in \<open>s\<close> as a contiguous piece.\<close>

fun contains :: "string \<Rightarrow> string \<Rightarrow> bool" where
  "contains sub [] = (sub = [])"
| "contains sub (c # cs) = (take (length sub) (c # cs) = sub \<or> contains sub cs)"

text \<open>
  \<^verbatim>\<open>s.replace(old, new)\<close>: every occurrence of \<open>old\<close>, found from the left and not
  overlapping, is replaced. With an empty \<open>old\<close> Python puts \<open>new\<close> around every
  character.
\<close>

function replace :: "string \<Rightarrow> string \<Rightarrow> string \<Rightarrow> string" where
  "replace [] new s = new @ concat (map (\<lambda>c. c # new) s)"
| "replace (a # old) new [] = []"
| "replace (a # old) new (c # cs) =
     (if take (length (a # old)) (c # cs) = a # old
      then new @ replace (a # old) new (drop (length old) cs)
      else c # replace (a # old) new cs)"
  by pat_completeness auto
termination
  by (relation "measure (\<lambda>(old, new, s). length s)") auto

text \<open>\<^verbatim>\<open>s.upper()\<close>, on the ASCII letters.\<close>

definition upper_char :: "char \<Rightarrow> char" where
  "upper_char c =
     (case map_of (zip ''abcdefghijklmnopqrstuvwxyz'' ''ABCDEFGHIJKLMNOPQRSTUVWXYZ'') c of
        None \<Rightarrow> c
      | Some u \<Rightarrow> u)"

definition upper :: "string \<Rightarrow> string" where
  "upper s = map upper_char s"

text \<open>\<^verbatim>\<open>s.split(sep)\<close> for a separator of one character.\<close>

fun split_str :: "char \<Rightarrow> string \<Rightarrow> string list" where
  "split_str sep [] = [[]]"
| "split_str sep (c # cs) =
     (if c = sep then [] # split_str sep cs
      else (c # hd (split_str sep cs)) # tl (split_str sep cs))"

text \<open>
  \<^verbatim>\<open>"{1}<sep>{0}".format(*parts)\<close>: the second part, the separator, the first part. A
  replacement index out of range raises \<open>IndexError\<close>; further parts are ignored.
\<close>

definition format_1_0 :: "string \<Rightarrow> string list \<Rightarrow> py_error + string" where
  "format_1_0 sep parts =
     (if length parts < 2 then Inl IndexError else Inr (parts ! 1 @ sep @ parts ! 0))"

subsection \<open>The tables\<close>

text \<open>
  \<^verbatim>\<open>Ticker.URLS\<close>, each template cut at its \<^verbatim>\<open>%s\<close> into the text before and the text
  after it, in the order of the dictionary literal.
\<close>

definition URLS :: "(string \<times> string \<times> string) list" where
  "URLS =
     [(''btc-e'', ''https://btc-e.com/api/2/'', ''/ticker''),
      (''bitfinex'', ''https://api.bitfinex.com/v1/pubticker/'', []),
      (''bittrex'', ''https://bittrex.com/api/v1.1/public/getmarketsummary?market='', []),
      (''bitstamp'', ''https://www.bitstamp.net/api/v2/ticker/'', []),
      (''coinbase'', ''https://api.exchange.coinbase.com/products/'', ''/ticker''),
      (''poloniex'', ''https://poloniex.com/public?command=returnTicker&currencyPair='', [])]"

definition RESPONSES_price :: "(string \<times> string) list" where
  "RESPONSES_price =
     [(''btc-e'', ''avg''), (''bitfinex'', ''last_price''), (''bittrex'', ''Last''),
      (''bitstamp'', ''last''), (''coinbase'', ''price''), (''poloniex'', ''last'')]"

definition RESPONSES_volume :: "(string \<times> string) list" where
  "RESPONSES_volume =
     [(''btc-e'', ''vol_cur''), (''bitfinex'', ''volume''), (''bittrex'', ''BaseVolume''),
      (''bitstamp'', ''volume''), (''coinbase'', ''volume''), (''poloniex'', ''baseVolume'')]"

subsection \<open>\<^verbatim>\<open>get_ticker_symbol\<close>\<close>

definition get_ticker_symbol :: "string \<Rightarrow> string \<Rightarrow> py_error + string" where
  "get_ticker_symbol currency_pair exchange_name =
     (if exchange_name \<notin> set (map fst URLS) then Inl TickerError
      else if \<not> contains ''/'' currency_pair then Inl TickerError
      else
        (let currency_pair =
               (if exchange_name \<in> set [''bittrex'', ''poloniex'']
                then upper (replace ''usd'' ''usdt'' currency_pair)
                else currency_pair)
         in if exchange_name = ''bittrex''
            then format_1_0 ''-'' (split_str CHR ''/'' currency_pair)
            else if exchange_name = ''poloniex''
            then format_1_0 ''_'' (split_str CHR ''/'' currency_pair)
            else if exchange_name \<in> set [''btc-e'']
            then Inr (replace ''/'' ''_'' currency_pair)
            else if exchange_name \<in> set [''coinbase'']
            then Inr (replace ''/'' ''-'' currency_pair)
            else Inr (replace ''/'' [] currency_pair)))"

subsection \<open>Responses\<close>

text \<open>
  The value of \<^verbatim>\<open>response.json()\<close>. An object is held as the list of its keys and
  values, each key once.
\<close>

datatype json =
  JNull | JBool bool | JNum rat | JStr string | JArr "json list" | JObj "(string \<times> json) list"

text \<open>
  One element of \<^verbatim>\<open>grequests.map(rs, exception_handler=lambda x, y: "")\<close>: the empty
  string of the exception handler (a request that failed or timed out), which has no
  \<^verbatim>\<open>status_code\<close>, or a response with its \<^verbatim>\<open>url\<close>, its \<^verbatim>\<open>status_code\<close> and its body.
  The body is \<open>None\<close> when it is not JSON, where \<^verbatim>\<open>response.json()\<close> raises
  \<open>ValueError\<close>. The requests run concurrently; the list of their results is the input
  of the model.
\<close>

datatype response = NoResponse | Response string int "json option"

text \<open>A raise in the first computation skips the second.\<close>

definition and_then :: "py_error + 'a \<Rightarrow> ('a \<Rightarrow> py_error + 'b) \<Rightarrow> py_error + 'b" where
  "and_then r f = (case r of Inl e \<Rightarrow> Inl e | Inr v \<Rightarrow> f v)"

text \<open>The truth value Python gives a JSON value.\<close>

fun truthy :: "json \<Rightarrow> bool" where
  "truthy JNull = False"
| "truthy (JBool b) = b"
| "truthy (JNum q) = (q \<noteq> 0)"
| "truthy (JStr s) = (s \<noteq> [])"
| "truthy (JArr xs) = (xs \<noteq> [])"
| "truthy (JObj kvs) = (kvs \<noteq> [])"

text \<open>
  \<^verbatim>\<open>s in j\<close> for a string \<open>s\<close>: a key of an object, an element of an array, a piece
  of a string; the other values are not iterable.
\<close>

fun py_in :: "string \<Rightarrow> json \<Rightarrow> py_error + bool" where
  "py_in s (JObj kvs) = Inr (s \<in> set (map fst kvs))"
| "py_in s (JArr xs) = Inr (JStr s \<in> set xs)"
| "py_in s (JStr t) = Inr (contains s t)"
| "py_in s j = Inl TypeError"

text \<open>\<^verbatim>\<open>j[key]\<close> for a string key: only an object can be indexed by a string.\<close>

fun getitem :: "json \<Rightarrow> string \<Rightarrow> py_error + json" where
  "getitem (JObj kvs) k = (case map_of kvs k of None \<Rightarrow> Inl KeyError | Some v \<Rightarrow> Inr v)"
| "getitem j k = Inl TypeError"

text \<open>\<^verbatim>\<open>j[0]\<close>.\<close>

fun getitem_0 :: "json \<Rightarrow> py_error + json" where
  "getitem_0 (JArr []) = Inl IndexError"
| "getitem_0 (JArr (x # xs)) = Inr x"
| "getitem_0 (JStr []) = Inl IndexError"
| "getitem_0 (JStr (c # cs)) = Inr (JStr [c])"
| "getitem_0 (JObj kvs) = Inl KeyError"
| "getitem_0 j = Inl TypeError"

text \<open>
  \<^verbatim>\<open>float(j)\<close>. What the builtin reads from a string is a parameter (\<open>None\<close> where it
  raises \<open>ValueError\<close>).
\<close>

fun py_float :: "(string \<Rightarrow> rat option) \<Rightarrow> json \<Rightarrow> py_error + rat" where
  "py_float float_str (JNum q) = Inr q"
| "py_float float_str (JBool b) = Inr (if b then 1 else 0)"
| "py_float float_str (JStr s) =
     (case float_str s of None \<Rightarrow> Inl ValueError | Some q \<Rightarrow> Inr q)"
| "py_float float_str j = Inl TypeError"

subsection \<open>\<^verbatim>\<open>price\<close>\<close>

text \<open>
  The dictionary \<^verbatim>\<open>urls\<close>: for every exchange of \<^verbatim>\<open>URLS\<close> its template filled with the
  symbol of the pair. A raise of \<^verbatim>\<open>get_ticker_symbol\<close> ends \<^verbatim>\<open>price\<close>.
\<close>

fun format_urls :: "string \<Rightarrow> (string \<times> string \<times> string) list \<Rightarrow> py_error + (string \<times> string) list" where
  "format_urls pair [] = Inr []"
| "format_urls pair ((k, before, after) # rest) =
     and_then (get_ticker_symbol pair k) (\<lambda>symbol.
     and_then (format_urls pair rest) (\<lambda>urls.
       Inr ((k, before @ symbol @ after) # urls)))"

text \<open>
  \<^verbatim>\<open>urls_rev[url]\<close>, where \<^verbatim>\<open>urls_rev = dict((v, k) for k, v in urls.items())\<close>: the
  last exchange with that URL.
\<close>

definition urls_rev :: "(string \<times> string) list \<Rightarrow> string \<Rightarrow> py_error + string" where
  "urls_rev urls url =
     (case map_of (rev (map (\<lambda>(k, v). (v, k)) urls)) url of
        None \<Rightarrow> Inl KeyError
      | Some k \<Rightarrow> Inr k)"

text \<open>
  The list comprehension \<^verbatim>\<open>valid_responses\<close>, from the left: an element without
  \<^verbatim>\<open>status_code\<close> or with a status other than 200 is left out without its body being
  read; otherwise \<^verbatim>\<open>x.json()\<close> is evaluated and the element is kept when the value is
  true. A valid response is kept as its URL and its JSON value.
\<close>

fun valid_responses :: "response list \<Rightarrow> py_error + (string \<times> json) list" where
  "valid_responses [] = Inr []"
| "valid_responses (NoResponse # xs) = valid_responses xs"
| "valid_responses (Response url status_code body # xs) =
     (if status_code \<noteq> 200 then valid_responses xs
      else
        (case body of
           None \<Rightarrow> Inl ValueError
         | Some j \<Rightarrow>
             and_then (valid_responses xs) (\<lambda>valid.
               Inr (if truthy j then (url, j) # valid else valid))))"

text \<open>\<^verbatim>\<open>"error" in response.json() and "invalid" in response.json()["error"]\<close>\<close>

definition invalid_error :: "json \<Rightarrow> py_error + bool" where
  "invalid_error j =
     and_then (py_in ''error'' j) (\<lambda>has_error.
       if has_error then and_then (getitem j ''error'') (py_in ''invalid'') else Inr False)"

text \<open>The branches that choose \<^verbatim>\<open>data\<close>.\<close>

definition ticker_data :: "string \<Rightarrow> string \<Rightarrow> json \<Rightarrow> py_error + json" where
  "ticker_data pair exchange j =
     (if exchange \<in> set [''okcoin'', ''btc-e''] then getitem j ''ticker''
      else if exchange = ''bittrex'' then and_then (getitem j ''result'') getitem_0
      else if exchange = ''poloniex''
      then and_then (get_ticker_symbol pair ''poloniex'') (getitem j)
      else Inr j)"

text \<open>\<^verbatim>\<open>RESPONSES[field][exchange]\<close>\<close>

definition RESPONSES :: "(string \<times> string) list \<Rightarrow> string \<Rightarrow> py_error + string" where
  "RESPONSES table exchange =
     (case map_of table exchange of None \<Rightarrow> Inl KeyError | Some name \<Rightarrow> Inr name)"

text \<open>
  One pass of the \<^verbatim>\<open>for\<close> loop after the \<^verbatim>\<open>continue\<close> test: the exchange of the
  response with its price and volume.
\<close>

definition quote :: "(string \<Rightarrow> rat option) \<Rightarrow> string \<Rightarrow> (string \<times> string) list \<Rightarrow> string \<Rightarrow> json \<Rightarrow> py_error + (string \<times> rat \<times> rat)" where
  "quote float_str pair urls url j =
     and_then (urls_rev urls url) (\<lambda>exchange.
     and_then (ticker_data pair exchange j) (\<lambda>data.
     and_then (RESPONSES RESPONSES_price exchange) (\<lambda>price_name.
     and_then (getitem data price_name) (\<lambda>price_value.
     and_then (py_float float_str price_value) (\<lambda>price.
     and_then (RESPONSES RESPONSES_volume exchange) (\<lambda>volume_name.
     and_then (getitem data volume_name) (\<lambda>volume_value.
     and_then (py_float float_str volume_value) (\<lambda>volume.
       Inr (exchange, price, volume)))))))))"

text \<open>
  The \<^verbatim>\<open>for\<close> loop over the valid responses. \<^verbatim>\<open>prices[exchange] = ...\<close> adds a key
  at the end or overwrites its value in place.
\<close>

fun collect_prices :: "(string \<Rightarrow> rat option) \<Rightarrow> string \<Rightarrow> (string \<times> string) list \<Rightarrow> (string \<times> json) list \<Rightarrow> (string \<times> rat \<times> rat) list \<Rightarrow> py_error + (string \<times> rat \<times> rat) list" where
  "collect_prices float_str pair urls [] prices = Inr prices"
| "collect_prices float_str pair urls ((url, j) # rest) prices =
     and_then (invalid_error j) (\<lambda>skip.
       if skip then collect_prices float_str pair urls rest prices
       else
         and_then (quote float_str pair urls url j) (\<lambda>(exchange, q).
           collect_prices float_str pair urls rest (AList.update exchange q prices)))"

text \<open>
  Modelled from the documentation of numpy, which is not code of this repository:
  \<^verbatim>\<open>np.average(a, weights=w)\<close> is \<open>sum (a * w) / sum w\<close> and raises
  \<open>ZeroDivisionError\<close> when the weights sum to zero.
\<close>

definition np_average :: "rat list \<Rightarrow> rat list \<Rightarrow> py_error + rat" where
  "np_average a weights =
     (if sum_list weights = 0 then Inl ZeroDivisionError
      else Inr (sum_list (map2 (*) a weights) / sum_list weights))"

text \<open>The dictionary \<^verbatim>\<open>prices\<close> when the loop of \<^verbatim>\<open>price\<close> has ended.\<close>

definition prices_of :: "(string \<Rightarrow> rat option) \<Rightarrow> string \<Rightarrow> response list \<Rightarrow> py_error + (string \<times> rat \<times> rat) list" where
  "prices_of float_str pair responses =
     and_then (format_urls pair URLS) (\<lambda>urls.
     and_then (valid_responses responses) (\<lambda>valid.
       collect_prices float_str pair urls valid []))"

definition price :: "(string \<Rightarrow> rat option) \<Rightarrow> string \<Rightarrow> response list \<Rightarrow> py_error + rat" where
  "price float_str pair responses =
     and_then (prices_of float_str pair responses) (\<lambda>prices.
       if length prices = 0 then Inl TickerError
       else np_average (map (\<lambda>x. fst (snd x)) prices) (map (\<lambda>x. snd (snd x)) prices))"

section \<open>Reference definitions\<close>

text \<open>
  The definitions of this section follow the wording of the specification, not the
  code; the theorems below compare the code with them.
\<close>

text \<open>
  A filter is absent (no filtering), a single operation type, or a collection of
  operation types; an operation matches when its type equals the tag or is a member of
  the collection.
\<close>

definition matches :: "filter_by \<Rightarrow> operation \<Rightarrow> bool" where
  "matches filter_by x =
     (case filter_by of
        FilterNone \<Rightarrow> True
      | FilterStr tag \<Rightarrow> op_type x = tag
      | FilterList tags \<Rightarrow> op_type x \<in> set tags)"

definition reference_filter :: "filter_by \<Rightarrow> operation list \<Rightarrow> operation list" where
  "reference_filter filter_by xs = filter (matches filter_by) xs"


text \<open>The volume-weighted average price of a list of quotes (exchange, price, volume).\<close>

definition VWAP :: "(string \<times> rat \<times> rat) list \<Rightarrow> rat" where
  "VWAP quotes =
     sum_list (map (\<lambda>(exchange, p, v). p * v) quotes) /
     sum_list (map (\<lambda>(exchange, p, v). v) quotes)"

section \<open>Sample data\<close>

text \<open>Ledger entries and exchange responses for the concrete runs below.\<close>

definition vote_entry :: entry where
  "vote_entry =
     \<lparr> entry_op = (''vote'', [(''voter'', ''alice''), (''weight'', ''10000'')]),
       entry_timestamp = ''2016-09-01T00:00:00'',
       entry_trx_id = ''a1'' \<rparr>"

definition transfer_entry :: entry where
  "transfer_entry =
     \<lparr> entry_op = (''transfer'', [(''from'', ''alice''), (''to'', ''bob'')]),
       entry_timestamp = ''2016-09-01T00:00:03'',
       entry_trx_id = ''b2'' \<rparr>"

definition coinbase_url :: string where
  "coinbase_url = ''https://api.exchange.coinbase.com/products/btc-usd/ticker''"

definition bitstamp_url :: string where
  "bitstamp_url = ''https://www.bitstamp.net/api/v2/ticker/btcusd''"

text \<open>A reader of numeric strings that accepts none; the sample bodies hold numbers.\<close>

definition no_float_str :: "string \<Rightarrow> rat option" where
  "no_float_str s = None"

definition poloniex_url :: string where
  "poloniex_url = ''https://poloniex.com/public?command=returnTicker&currencyPair=USDT_BTC''"

definition coinbase_quote :: "rat \<Rightarrow> rat \<Rightarrow> response" where
  "coinbase_quote p v =
     Response coinbase_url 200 (Some (JObj [(''price'', JNum p), (''volume'', JNum v)]))"

definition bitstamp_quote :: "rat \<Rightarrow> rat \<Rightarrow> response" where
  "bitstamp_quote p v =
     Response bitstamp_url 200 (Some (JObj [(''last'', JNum p), (''volume'', JNum v)]))"

definition poloniex_other_pairs :: response where
  "poloniex_other_pairs =
     Response poloniex_url 200
       (Some (JObj [(''BTC_ETH'', JObj [(''last'', JStr ''0.05''), (''baseVolume'', JStr ''12.5'')])]))"

section \<open>Account history: theorems\<close>

subsection \<open>Fuel\<close>

text \<open>
  A run that has ended (returned or raised) within some number of batches is the same
  run for every larger number: the fuel only cuts off generators that are still looping.
\<close>

lemma history_loop_more_fuel:
  "ending (history_loop rpc fuel filter_by max_index start_index i) \<noteq> Suspended \<Longrightarrow>
     history_loop rpc (fuel + extra) filter_by max_index start_index i =
     history_loop rpc fuel filter_by max_index start_index i"
proof (induction fuel arbitrary: i)
  case 0
  then show ?case by (simp add: ending_def)
next
  case (Suc fuel)
  define limit where "limit = (if i = start_index then batch_size else batch_size - 1)"
  show ?case
  proof (cases "rpc i limit")
    case (Inl e)
    then show ?thesis by (simp add: limit_def)
  next
    case (Inr batch)
    obtain ys stop where f: "for_items filter_by max_index batch = (ys, stop)"
      by (cases "for_items filter_by max_index batch")
    show ?thesis
    proof (cases stop)
      case True
      with Inr f show ?thesis by (simp add: limit_def)
    next
      case False
      obtain zs cs out where
        r: "history_loop rpc fuel filter_by max_index start_index (i + batch_size) = (zs, cs, out)"
        by (cases "history_loop rpc fuel filter_by max_index start_index (i + batch_size)")
      with Suc.prems Inr f False have "out \<noteq> Suspended"
        by (simp add: limit_def ending_def)
      with r have "history_loop rpc (fuel + extra) filter_by max_index start_index (i + batch_size) =
          (zs, cs, out)"
        using Suc.IH [of "i + batch_size"] by (simp add: ending_def)
      with Inr f False r show ?thesis by (simp add: limit_def)
    qed
  qed
qed

lemma history_more_fuel:
  "ending (history rpc fuel filter_by start) \<noteq> Suspended \<Longrightarrow>
     history rpc (fuel + extra) filter_by start = history rpc fuel filter_by start"
proof (cases "virtual_op_count rpc")
  case (Inl e)
  then show ?thesis by (simp add: history_def)
next
  case (Inr max_index)
  assume a: "ending (history rpc fuel filter_by start) \<noteq> Suspended"
  show ?thesis
  proof (cases "max_index = 0")
    case True
    with Inr show ?thesis by (simp add: history_def)
  next
    case False
    obtain zs cs out where
      r: "history_loop rpc fuel filter_by max_index (start + batch_size) (start + batch_size) =
            (zs, cs, out)"
      by (cases "history_loop rpc fuel filter_by max_index (start + batch_size) (start + batch_size)")
    with a Inr False have "out \<noteq> Suspended"
      by (simp add: history_def ending_def)
    with r have "history_loop rpc (fuel + extra) filter_by max_index (start + batch_size)
        (start + batch_size) = (zs, cs, out)"
      using history_loop_more_fuel
        [of rpc fuel filter_by max_index "start + batch_size" "start + batch_size" extra]
      by (simp add: ending_def)
    with Inr False r show ?thesis by (simp add: history_def)
  qed
qed

subsection \<open>The filter\<close>

lemma yield_item_reference:
  "yield_item filter_by item = reference_filter filter_by (yield_item FilterNone item)"
  by (cases filter_by)
     (simp_all add: yield_item_def reference_filter_def matches_def construct_op_def)

lemma reference_filter_append:
  "reference_filter filter_by (xs @ ys) =
     reference_filter filter_by xs @ reference_filter filter_by ys"
  by (simp add: reference_filter_def)

lemma for_items_reference:
  "for_items filter_by max_index items =
     (case for_items FilterNone max_index items of
        (ys, stop) \<Rightarrow> (reference_filter filter_by ys, stop))"
proof (induction items)
  case Nil
  show ?case by (simp add: reference_filter_def)
next
  case (Cons item rest)
  show ?case
  proof (cases "fst item \<ge> max_index")
    case True
    then show ?thesis by (simp add: reference_filter_def)
  next
    case False
    obtain ys stop where u: "for_items FilterNone max_index rest = (ys, stop)"
      by (cases "for_items FilterNone max_index rest")
    with Cons.IH have "for_items filter_by max_index rest = (reference_filter filter_by ys, stop)"
      by simp
    with u False show ?thesis
      using yield_item_reference [of filter_by item]
      by (simp add: reference_filter_append)
  qed
qed

lemma history_loop_reference:
  "history_loop rpc fuel filter_by max_index start_index i =
     (case history_loop rpc fuel FilterNone max_index start_index i of
        (ys, cs, out) \<Rightarrow> (reference_filter filter_by ys, cs, out))"
proof (induction fuel arbitrary: i)
  case 0
  show ?case by (simp add: reference_filter_def)
next
  case (Suc fuel)
  define limit where "limit = (if i = start_index then batch_size else batch_size - 1)"
  show ?case
  proof (cases "rpc i limit")
    case (Inl e)
    then show ?thesis by (simp add: limit_def reference_filter_def)
  next
    case (Inr batch)
    obtain ys stop where u: "for_items FilterNone max_index batch = (ys, stop)"
      by (cases "for_items FilterNone max_index batch")
    then have f: "for_items filter_by max_index batch = (reference_filter filter_by ys, stop)"
      using for_items_reference [of filter_by max_index batch] by simp
    obtain zs cs out where
      r: "history_loop rpc fuel FilterNone max_index start_index (i + batch_size) = (zs, cs, out)"
      by (cases "history_loop rpc fuel FilterNone max_index start_index (i + batch_size)")
    then have r': "history_loop rpc fuel filter_by max_index start_index (i + batch_size) =
        (reference_filter filter_by zs, cs, out)"
      using Suc.IH [of "i + batch_size"] by simp
    show ?thesis
      using Inr u f r r' by (cases stop) (simp_all add: limit_def reference_filter_append)
  qed
qed

lemma history_reference:
  "history rpc fuel filter_by start =
     (case history rpc fuel FilterNone start of
        (ys, cs, out) \<Rightarrow> (reference_filter filter_by ys, cs, out))"
proof (cases "virtual_op_count rpc")
  case (Inl e)
  then show ?thesis by (simp add: history_def reference_filter_def)
next
  case (Inr max_index)
  show ?thesis
  proof (cases "max_index = 0")
    case True
    with Inr show ?thesis by (simp add: history_def reference_filter_def)
  next
    case False
    obtain zs cs out where
      r: "history_loop rpc fuel FilterNone max_index (start + batch_size) (start + batch_size) =
            (zs, cs, out)"
      by (cases "history_loop rpc fuel FilterNone max_index (start + batch_size) (start + batch_size)")
    then have "history_loop rpc fuel filter_by max_index (start + batch_size) (start + batch_size) =
        (reference_filter filter_by zs, cs, out)"
      using history_loop_reference
              [of rpc fuel filter_by max_index "start + batch_size" "start + batch_size"]
      by simp
    with Inr False r show ?thesis by (simp add: history_def)
  qed
qed




subsection \<open>An account without operations\<close>

text \<open>
  Claim C6. When the operation count is 0, \<^verbatim>\<open>history\<close> yields nothing, its only remote
  call is the count check (index \<open>-1\<close>, limit \<open>0\<close>) and it returns normally, whatever
  the filter, the start and the number of batches the consumer would be willing to
  wait for.
\<close>

theorem history_empty_when_count_zero:
  "virtual_op_count rpc = Inr 0 \<Longrightarrow>
     history rpc fuel filter_by start = ([], [(- 1, 0)], Returned)"
  by (simp add: history_def)

theorem history_empty_when_count_zero_witness:
  "virtual_op_count (get_account_history []) = Inr 0
   \<and> history (get_account_history []) 3 (FilterStr ''vote'') 0 = ([], [(- 1, 0)], Returned)"
proof -
  have h: "virtual_op_count (get_account_history []) = Inr 0"
    by (simp add: virtual_op_count_def get_account_history_def)
  show ?thesis
    using h history_empty_when_count_zero [OF h, of 3 "FilterStr ''vote''" 0] by simp
qed

text \<open>
  Claim C10. An account whose whole history is one operation with index 0 has
  operation count 0, and \<^verbatim>\<open>history\<close> yields nothing and fetches no batch: the run is
  the same as the run on an account with no history.
\<close>

theorem history_single_operation_is_empty:
  "rpc (- 1) 0 = Inr [(0, e)] \<Longrightarrow> rpc0 (- 1) 0 = Inr [] \<Longrightarrow>
     virtual_op_count rpc = Inr 0
   \<and> history rpc fuel filter_by start = ([], [(- 1, 0)], Returned)
   \<and> history rpc fuel filter_by start = history rpc0 fuel filter_by start"
  by (simp add: history_def virtual_op_count_def)

theorem history_single_operation_is_empty_witness:
  "get_account_history [vote_entry] (- 1) 0 = Inr [(0, vote_entry)]
   \<and> get_account_history [] (- 1) 0 = Inr []
   \<and> virtual_op_count (get_account_history [vote_entry]) = Inr 0
   \<and> history (get_account_history [vote_entry]) 2 FilterNone 0 = ([], [(- 1, 0)], Returned)
   \<and> history (get_account_history [vote_entry]) 2 FilterNone 0 =
     history (get_account_history []) 2 FilterNone 0"
proof -
  have h1: "get_account_history [vote_entry] (- 1) 0 = Inr [(0, vote_entry)]"
    by (simp add: get_account_history_def ledger_item_def)
  have h0: "get_account_history [] (- 1) 0 = Inr []"
    by (simp add: get_account_history_def)
  show ?thesis
    using h1 h0
      history_single_operation_is_empty
        [of "get_account_history [vote_entry]" vote_entry "get_account_history []" 2 FilterNone 0,
         OF h1 h0]
    by blast
qed

subsection \<open>The most recent operations\<close>

text \<open>
  Claim C4. \<^verbatim>\<open>history2\<close> with \<open>take\<close> yields the same operations, and ends the same
  way, as \<^verbatim>\<open>history\<close> with the same filter started at \<open>max 0 (count - take)\<close>. Its
  remote calls are those of that \<^verbatim>\<open>history\<close> after one count check of its own.
\<close>

theorem history2_is_history_from_recent_start:
  "virtual_op_count rpc = Inr n \<Longrightarrow>
     yielded (history2 rpc fuel filter_by take_n) =
       yielded (history rpc fuel filter_by (max 0 (n - take_n)))
   \<and> ending (history2 rpc fuel filter_by take_n) =
       ending (history rpc fuel filter_by (max 0 (n - take_n)))
   \<and> calls (history2 rpc fuel filter_by take_n) =
       (- 1, 0) # calls (history rpc fuel filter_by (max 0 (n - take_n)))"
  by (cases "history rpc fuel filter_by (max 0 (n - take_n))"; cases "n - take_n < 0")
     (simp_all add: history2_def yielded_def ending_def calls_def max_def)

theorem history2_is_history_from_recent_start_witness:
  "virtual_op_count (get_account_history [vote_entry, transfer_entry, vote_entry, transfer_entry]) = Inr 3
   \<and> yielded (history2 (get_account_history [vote_entry, transfer_entry, vote_entry, transfer_entry]) 1 FilterNone 2) =
     yielded (history (get_account_history [vote_entry, transfer_entry, vote_entry, transfer_entry]) 1 FilterNone (max 0 (3 - 2)))
   \<and> ending (history2 (get_account_history [vote_entry, transfer_entry, vote_entry, transfer_entry]) 1 FilterNone 2) =
     ending (history (get_account_history [vote_entry, transfer_entry, vote_entry, transfer_entry]) 1 FilterNone (max 0 (3 - 2)))
   \<and> map index (yielded (history2 (get_account_history [vote_entry, transfer_entry, vote_entry, transfer_entry]) 1 FilterNone 2)) = [1, 2]"
proof -
  have h: "virtual_op_count (get_account_history [vote_entry, transfer_entry, vote_entry, transfer_entry]) = Inr 3"
    by (simp add: virtual_op_count_def get_account_history_def ledger_item_def upto.simps)
  have e: "map index (yielded (history2 (get_account_history [vote_entry, transfer_entry, vote_entry, transfer_entry]) 1 FilterNone 2)) = [1, 2]"
    by (simp add: history2_def history_def virtual_op_count_def get_account_history_def
          ledger_item_def yielded_def batch_size_def yield_item_def construct_op_def upto.simps)
  show ?thesis
    using h e history2_is_history_from_recent_start [OF h, of 1 FilterNone 2] by simp
qed

subsection \<open>The range of a replay\<close>

text \<open>
  Claim C1. \<^verbatim>\<open>virtual_op_count\<close> returns the index of the most recent operation, which
  for a log of \<open>N\<close> operations is \<open>N - 1\<close>, and \<^verbatim>\<open>history\<close> stops at the first item whose
  index reaches it. On a log of three operations the replay from start 0 fetches one
  batch, yields the operations with index 0 and 1 and returns: the operation with
  index 2, the last element of the history, is not yielded.
\<close>

theorem history_omits_last_operation:
  "yielded (history (get_account_history [vote_entry, transfer_entry, vote_entry]) 1 FilterNone 0) =
     [construct_op (0, vote_entry), construct_op (1, transfer_entry)]
   \<and> map index (yielded (history (get_account_history [vote_entry, transfer_entry, vote_entry]) 1 FilterNone 0)) = [0, 1]
   \<and> ending (history (get_account_history [vote_entry, transfer_entry, vote_entry]) 1 FilterNone 0) = Returned
   \<and> calls (history (get_account_history [vote_entry, transfer_entry, vote_entry]) 1 FilterNone 0) =
     [(- 1, 0), (1000, 1000)]"
  by (simp add: history_def virtual_op_count_def get_account_history_def ledger_item_def
        yielded_def ending_def calls_def batch_size_def yield_item_def construct_op_def upto.simps)

text \<open>
  The same holds on every log of the ledger: a replay that starts inside the log
  yields, across all batches, the operations from \<open>start\<close> up to but not including the
  last one, each once and in order, and then returns; a replay that starts beyond the
  last index receives empty batches and never leaves its loop.
\<close>

lemma for_items_upto:
  "for_items FilterNone m (map (ledger_item oplog) [lo..hi]) =
     (map (\<lambda>k. construct_op (ledger_item oplog k)) [lo .. min hi (m - 1)], lo \<le> hi \<and> m \<le> hi)"
proof (induction lo hi rule: upto.induct)
  case (1 lo hi)
  show ?case
  proof (cases "lo \<le> hi")
    case False
    then show ?thesis by simp
  next
    case True
    then have u: "[lo..hi] = lo # [lo + 1..hi]" by (simp add: upto_rec1)
    show ?thesis
    proof (cases "m \<le> lo")
      case True
      with \<open>lo \<le> hi\<close> u show ?thesis by (simp add: ledger_item_def)
    next
      case False
      then have v: "[lo .. min hi (m - 1)] = lo # [lo + 1 .. min hi (m - 1)]"
        using True by (simp add: upto_rec1)
      from False True "1.IH" [OF True] u show ?thesis
        by (auto simp add: v yield_item_def ledger_item_def)
    qed
  qed
qed

lemma get_account_history_batch:
  "0 \<le> i \<Longrightarrow> get_account_history oplog i limit =
     Inr (map (ledger_item oplog) [max 0 (i - limit) .. min i (int (length oplog) - 1)])"
  by (simp add: get_account_history_def Let_def)

lemma history_loop_tail:
  "s < i \<Longrightarrow> 0 \<le> i - 999 \<Longrightarrow> i - 999 \<le> int (length oplog) - 1 \<Longrightarrow>
   nat ((int (length oplog) - 1 - (i - 999)) div 1000) < fuel \<Longrightarrow>
   \<exists>cs. history_loop (get_account_history oplog) fuel FilterNone (int (length oplog) - 1) s i =
     (map (\<lambda>k. construct_op (ledger_item oplog k)) [i - 999 .. int (length oplog) - 2], cs, Returned)"
proof (induction fuel arbitrary: i)
  case 0
  then show ?case by simp
next
  case (Suc fuel)
  define m where "m = int (length oplog) - 1"
  have b: "get_account_history oplog i 999 = Inr (map (ledger_item oplog) [i - 999 .. min i m])"
    using Suc.prems get_account_history_batch [of i oplog 999] by (simp add: m_def max_def)
  have f: "for_items FilterNone m (map (ledger_item oplog) [i - 999 .. min i m]) =
      (map (\<lambda>k. construct_op (ledger_item oplog k)) [i - 999 .. min (min i m) (m - 1)], m \<le> i)"
    using Suc.prems for_items_upto [of m oplog "i - 999" "min i m"] by (auto simp add: m_def)
  show ?case
  proof (cases "m \<le> i")
    case True
    then have "min (min i m) (m - 1) = m - 1" by simp
    with True b f Suc.prems(1) show ?thesis
      by (simp add: m_def [symmetric] batch_size_def) (simp add: m_def)
  next
    case False
    then have mm: "min (min i m) (m - 1) = i" by simp
    have e: "i + 1000 - 999 = i + 1" by simp
    have "\<exists>cs. history_loop (get_account_history oplog) fuel FilterNone (int (length oplog) - 1) s (i + 1000) =
        (map (\<lambda>k. construct_op (ledger_item oplog k)) [i + 1000 - 999 .. int (length oplog) - 2], cs, Returned)"
    proof (rule Suc.IH)
      show "s < i + 1000" using Suc.prems(1) by simp
      show "0 \<le> i + 1000 - 999" using Suc.prems(2) by simp
      show "i + 1000 - 999 \<le> int (length oplog) - 1" using False by (simp add: m_def)
      show "nat ((int (length oplog) - 1 - (i + 1000 - 999)) div 1000) < fuel"
        using Suc.prems(4) False by (simp add: m_def)
    qed
    then obtain cs where r: "history_loop (get_account_history oplog) fuel FilterNone m s (i + 1000) =
        (map (\<lambda>k. construct_op (ledger_item oplog k)) [i + 1 .. m - 1], cs, Returned)"
      unfolding e m_def by auto
    have app: "[i - 999 .. i] @ [i + 1 .. m - 1] = [i - 999 .. m - 1]"
      using False upto_split2 [of "i - 999" i "m - 1"] by simp
    have "map (\<lambda>k. construct_op (ledger_item oplog k)) [i - 999 .. i] @
          map (\<lambda>k. construct_op (ledger_item oplog k)) [i + 1 .. m - 1] =
          map (\<lambda>k. construct_op (ledger_item oplog k)) [i - 999 .. m - 1]"
      using app by (metis map_append)
    with False b f r mm Suc.prems(1) show ?thesis
      by (simp add: m_def [symmetric] batch_size_def) (simp add: m_def)
  qed
qed

lemma virtual_op_count_ledger:
  "virtual_op_count (get_account_history oplog) = Inr (if oplog = [] then 0 else int (length oplog) - 1)"
proof (cases oplog)
  case Nil
  then show ?thesis by (simp add: virtual_op_count_def get_account_history_def)
next
  case (Cons e es)
  then have "[int (length oplog) - 1 .. int (length oplog) - 1] = [int (length oplog) - 1]"
    by simp
  with Cons show ?thesis
    by (simp add: virtual_op_count_def get_account_history_def ledger_item_def max_def)
qed

lemma history_loop_first:
  assumes "0 \<le> start" and "start \<le> int (length oplog) - 1"
    and "nat ((int (length oplog) - 1 - start) div 1000) < fuel"
  shows "\<exists>cs. history_loop (get_account_history oplog) fuel FilterNone (int (length oplog) - 1)
            (start + 1000) (start + 1000) =
     (map (\<lambda>k. construct_op (ledger_item oplog k)) [start .. int (length oplog) - 2], cs, Returned)"
proof -
  define m where "m = int (length oplog) - 1"
  define i where "i = start + 1000"
  obtain n where fuel: "fuel = Suc n" using assms(3) by (cases fuel) auto
  have b: "get_account_history oplog i 1000 = Inr (map (ledger_item oplog) [start .. min i m])"
    using assms get_account_history_batch [of i oplog 1000] by (simp add: m_def i_def max_def)
  have f: "for_items FilterNone m (map (ledger_item oplog) [start .. min i m]) =
      (map (\<lambda>k. construct_op (ledger_item oplog k)) [start .. min (min i m) (m - 1)], m \<le> i)"
    using assms for_items_upto [of m oplog start "min i m"] by (auto simp add: m_def i_def)
  show ?thesis
  proof (cases "m \<le> i")
    case True
    then have "min (min i m) (m - 1) = m - 1" by simp
    with True b f fuel show ?thesis
      by (simp add: m_def [symmetric] i_def [symmetric] batch_size_def) (simp add: m_def)
  next
    case False
    then have mm: "min (min i m) (m - 1) = i" by simp
    have e: "i + 1000 - 999 = i + 1" by simp
    have "\<exists>cs. history_loop (get_account_history oplog) n FilterNone (int (length oplog) - 1) i (i + 1000) =
        (map (\<lambda>k. construct_op (ledger_item oplog k)) [i + 1000 - 999 .. int (length oplog) - 2], cs, Returned)"
    proof (rule history_loop_tail)
      show "i < i + 1000" by simp
      show "0 \<le> i + 1000 - 999" using assms(1) by (simp add: i_def)
      show "i + 1000 - 999 \<le> int (length oplog) - 1" using False by (simp add: m_def)
      show "nat ((int (length oplog) - 1 - (i + 1000 - 999)) div 1000) < n"
        using assms(3) False fuel by (simp add: m_def i_def)
    qed
    then obtain cs where r: "history_loop (get_account_history oplog) n FilterNone m i (i + 1000) =
        (map (\<lambda>k. construct_op (ledger_item oplog k)) [i + 1 .. m - 1], cs, Returned)"
      unfolding e m_def by auto
    have app: "[start .. i] @ [i + 1 .. m - 1] = [start .. m - 1]"
      using False assms(1) upto_split2 [of start i "m - 1"] by (simp add: i_def)
    have "map (\<lambda>k. construct_op (ledger_item oplog k)) [start .. i] @
          map (\<lambda>k. construct_op (ledger_item oplog k)) [i + 1 .. m - 1] =
          map (\<lambda>k. construct_op (ledger_item oplog k)) [start .. m - 1]"
      using app by (metis map_append)
    with False b f r mm fuel show ?thesis
      by (simp add: m_def [symmetric] i_def [symmetric] batch_size_def) (simp add: m_def)
  qed
qed

lemma history_ledger_unfiltered:
  assumes "2 \<le> length oplog" and "0 \<le> start" and "start \<le> int (length oplog) - 1"
    and "nat ((int (length oplog) - 1 - start) div 1000) < fuel"
  shows "yielded (history (get_account_history oplog) fuel FilterNone start) =
           map (\<lambda>k. construct_op (ledger_item oplog k)) [start .. int (length oplog) - 2]
       \<and> ending (history (get_account_history oplog) fuel FilterNone start) = Returned"
proof -
  have v: "virtual_op_count (get_account_history oplog) = Inr (int (length oplog) - 1)"
    using assms(1) virtual_op_count_ledger [of oplog] by auto
  obtain cs where "history_loop (get_account_history oplog) fuel FilterNone (int (length oplog) - 1)
            (start + 1000) (start + 1000) =
     (map (\<lambda>k. construct_op (ledger_item oplog k)) [start .. int (length oplog) - 2], cs, Returned)"
    using history_loop_first [OF assms(2-4)] by auto
  with v assms(1) show ?thesis
    by (simp add: history_def batch_size_def yielded_def ending_def)
qed

lemma history_loop_beyond:
  "int (length oplog) - 1 < i - 1000 \<Longrightarrow>
   \<exists>cs. history_loop (get_account_history oplog) fuel filter_by m s i = ([], cs, Suspended)"
proof (induction fuel arbitrary: i)
  case 0
  show ?case by simp
next
  case (Suc fuel)
  have b: "get_account_history oplog i limit = Inr []" if "limit \<le> 1000" for limit
    using Suc.prems that by (simp add: get_account_history_def Let_def)
  obtain cs where "history_loop (get_account_history oplog) fuel filter_by m s (i + 1000) = ([], cs, Suspended)"
    using Suc.IH [of "i + 1000"] Suc.prems by auto
  then show ?case
    using b [of 1000] b [of 999] by (cases "i = s") (simp_all add: batch_size_def)
qed

lemma history_ledger_beyond:
  assumes "2 \<le> length oplog" and "int (length oplog) - 1 < start"
  shows "yielded (history (get_account_history oplog) fuel filter_by start) = []
       \<and> ending (history (get_account_history oplog) fuel filter_by start) = Suspended"
proof -
  have v: "virtual_op_count (get_account_history oplog) = Inr (int (length oplog) - 1)"
    using assms(1) virtual_op_count_ledger [of oplog] by auto
  obtain cs where "history_loop (get_account_history oplog) fuel filter_by (int (length oplog) - 1)
            (start + 1000) (start + 1000) = ([], cs, Suspended)"
    using history_loop_beyond [of oplog "start + 1000" fuel filter_by] assms(2) by auto
  with v assms(1) show ?thesis
    by (simp add: history_def batch_size_def yielded_def ending_def)
qed

lemma history_ledger_range:
  assumes "2 \<le> length oplog" and "0 \<le> start" and "start \<le> int (length oplog) - 1"
    and "nat ((int (length oplog) - 1 - start) div 1000) < fuel"
  shows "yielded (history (get_account_history oplog) fuel filter_by start) =
           reference_filter filter_by
             (map (\<lambda>k. construct_op (ledger_item oplog k)) [start .. int (length oplog) - 2])
       \<and> ending (history (get_account_history oplog) fuel filter_by start) = Returned"
  using history_ledger_unfiltered [OF assms] history_reference [of "get_account_history oplog" fuel filter_by start]
  by (cases "history (get_account_history oplog) fuel FilterNone start")
     (simp add: yielded_def ending_def)

section \<open>Reward arithmetic: theorems\<close>

text \<open>
  Claim C9. For a fixed nonzero \<^verbatim>\<open>steem_per_mvests\<close>, in exact arithmetic,
  \<^verbatim>\<open>vests_to_power\<close> after \<^verbatim>\<open>sp_to_vests\<close> gives back every \<open>sp\<close>, and \<^verbatim>\<open>sp_to_vests\<close>
  after \<^verbatim>\<open>vests_to_power\<close> gives back every amount of vests; neither call raises.
\<close>

theorem vests_power_inverse:
  "steem_per_mvests \<noteq> 0 \<Longrightarrow>
     and_then (sp_to_vests steem_per_mvests sp) (\<lambda>vests. Inr (vests_to_power steem_per_mvests vests)) = Inr sp
   \<and> sp_to_vests steem_per_mvests (vests_to_power steem_per_mvests vests) = Inr vests"
  by (simp add: sp_to_vests_def vests_to_power_def and_then_def)

theorem vests_power_inverse_witness:
  "(480 :: rat) \<noteq> 0
   \<and> and_then (sp_to_vests 480 3) (\<lambda>vests. Inr (vests_to_power 480 vests)) = Inr 3
   \<and> sp_to_vests 480 3 = Inr 6250
   \<and> vests_to_power 480 6250 = 3
   \<and> sp_to_vests 480 (vests_to_power 480 6250) = Inr 6250"
proof -
  have h: "(480 :: rat) \<noteq> 0" by simp
  have e: "sp_to_vests 480 3 = Inr 6250" "vests_to_power 480 6250 = 3"
    by (simp_all add: sp_to_vests_def vests_to_power_def)
  show ?thesis
    using h e vests_power_inverse [OF h, of 3 6250] by simp
qed

subsection \<open>\<^verbatim>\<open>sp_to_rshares\<close>\<close>





subsection \<open>\<^verbatim>\<open>rshares_2_weight\<close>\<close>







section \<open>Ticker: theorems\<close>

subsection \<open>\<^verbatim>\<open>get_ticker_symbol\<close>\<close>

lemma contains_single: "contains [c] s = (c \<in> set s)"
  by (induction s) auto

lemma split_str_length: "length (split_str sep s) = Suc (length (filter (\<lambda>c. c = sep) s))"
proof (induction s)
  case Nil
  show ?case by simp
next
  case (Cons c cs)
  then have "split_str sep cs \<noteq> []" by auto
  then have "length (tl (split_str sep cs)) = length (split_str sep cs) - 1" by simp
  with Cons show ?case by simp
qed

lemma split_str_two_parts: "sep \<in> set s \<Longrightarrow> 2 \<le> length (split_str sep s)"
proof -
  assume "sep \<in> set s"
  then have "filter (\<lambda>c. c = sep) s \<noteq> []"
    by (simp add: filter_empty_conv)
  then have "0 < length (filter (\<lambda>c. c = sep) s)" by blast
  then show ?thesis by (simp only: split_str_length)
qed

lemma replace_keeps_char:
  "c \<notin> set old \<Longrightarrow> c \<in> set s \<Longrightarrow> c \<in> set (replace old new s)"
proof (induction old new s rule: replace.induct)
  case (1 new s)
  then show ?case by auto
next
  case (2 a old new)
  then show ?case by simp
next
  case (3 a old new d ds)
  show ?case
  proof (cases "take (length (a # old)) (d # ds) = a # old")
    case True
    then have "d # ds = (a # old) @ drop (length (a # old)) (d # ds)"
      by (metis append_take_drop_id)
    then have "set (d # ds) = set (a # old) \<union> set (drop (length old) ds)"
      by (metis drop_Suc_Cons length_Cons set_append)
    with "3.prems" have "c \<in> set (drop (length old) ds)" by auto
    with True "3.IH"(1) "3.prems"(1) show ?thesis by simp
  next
    case False
    with "3.IH"(2) "3.prems" show ?thesis by auto
  qed
qed

lemma upper_keeps_slash: "CHR ''/'' \<in> set s \<Longrightarrow> CHR ''/'' \<in> set (upper s)"
proof -
  assume "CHR ''/'' \<in> set s"
  moreover have "upper_char CHR ''/'' = CHR ''/''" by (simp add: upper_char_def)
  ultimately show ?thesis
    unfolding upper_def by (metis image_eqI set_map)
qed

lemma format_1_0_ok: "2 \<le> length parts \<Longrightarrow> \<exists>s. format_1_0 sep parts = Inr s"
  by (simp add: format_1_0_def)

lemma get_ticker_symbol_ok:
  assumes "CHR ''/'' \<in> set pair" and "ex \<in> set (map fst URLS)"
  shows "\<exists>s. get_ticker_symbol pair ex = Inr s"
proof -
  have "CHR ''/'' \<in> set (upper (replace ''usd'' ''usdt'' pair))"
    using assms(1) by (intro upper_keeps_slash replace_keeps_char) simp_all
  then have "2 \<le> length (split_str CHR ''/'' (upper (replace ''usd'' ''usdt'' pair)))"
    by (rule split_str_two_parts)
  then have "\<exists>s. format_1_0 sep (split_str CHR ''/'' (upper (replace ''usd'' ''usdt'' pair))) = Inr s" for sep
    by (rule format_1_0_ok)
  then show ?thesis
    using assms by (auto simp add: get_ticker_symbol_def contains_single Let_def)
qed

lemma get_ticker_symbol_raise:
  "\<not> (CHR ''/'' \<in> set pair \<and> ex \<in> set (map fst URLS)) \<Longrightarrow>
     get_ticker_symbol pair ex = Inl TickerError"
  by (auto simp add: get_ticker_symbol_def contains_single)


subsection \<open>\<^verbatim>\<open>price\<close>\<close>

lemma and_then_no_ticker_error:
  "r \<noteq> Inl TickerError \<Longrightarrow> (\<And>v. f v \<noteq> Inl TickerError) \<Longrightarrow> and_then r f \<noteq> Inl TickerError"
  by (cases r) (simp_all add: and_then_def)

lemma py_in_no_ticker_error: "py_in s j \<noteq> Inl TickerError"
  by (cases j) simp_all

lemma getitem_no_ticker_error: "getitem j k \<noteq> Inl TickerError"
  by (cases j) (simp_all split: option.split)

lemma getitem_0_no_ticker_error: "getitem_0 j \<noteq> Inl TickerError"
  by (cases j rule: getitem_0.cases) simp_all

lemma py_float_no_ticker_error: "py_float float_str j \<noteq> Inl TickerError"
  by (cases j) (simp_all split: option.split)

lemma urls_rev_no_ticker_error: "urls_rev urls url \<noteq> Inl TickerError"
  by (simp add: urls_rev_def split: option.split)

lemma RESPONSES_no_ticker_error: "RESPONSES table exchange \<noteq> Inl TickerError"
  by (simp add: RESPONSES_def split: option.split)

lemma invalid_error_no_ticker_error: "invalid_error j \<noteq> Inl TickerError"
  unfolding invalid_error_def
  by (intro and_then_no_ticker_error py_in_no_ticker_error)
     (simp add: and_then_no_ticker_error getitem_no_ticker_error py_in_no_ticker_error)

lemma ticker_data_no_ticker_error:
  "CHR ''/'' \<in> set pair \<Longrightarrow> ticker_data pair exchange j \<noteq> Inl TickerError"
proof -
  assume "CHR ''/'' \<in> set pair"
  then obtain s where "get_ticker_symbol pair ''poloniex'' = Inr s"
    using get_ticker_symbol_ok [of pair "''poloniex''"] by (auto simp add: URLS_def)
  then show ?thesis
    by (simp add: ticker_data_def and_then_no_ticker_error getitem_no_ticker_error
          getitem_0_no_ticker_error)
qed

lemma quote_no_ticker_error:
  "CHR ''/'' \<in> set pair \<Longrightarrow> quote float_str pair urls url j \<noteq> Inl TickerError"
  unfolding quote_def
  by (intro and_then_no_ticker_error urls_rev_no_ticker_error ticker_data_no_ticker_error
        RESPONSES_no_ticker_error getitem_no_ticker_error py_float_no_ticker_error)
     simp_all

lemma collect_prices_no_ticker_error:
  "CHR ''/'' \<in> set pair \<Longrightarrow> collect_prices float_str pair urls valid prices \<noteq> Inl TickerError"
proof (induction valid arbitrary: prices)
  case Nil
  show ?case by simp
next
  case (Cons x valid)
  obtain url j where x: "x = (url, j)" by (cases x)
  show ?case
    unfolding x collect_prices.simps
  proof (intro and_then_no_ticker_error invalid_error_no_ticker_error)
    fix skip
    show "(if skip then collect_prices float_str pair urls valid prices
           else and_then (quote float_str pair urls url j)
                  (\<lambda>(exchange, q). collect_prices float_str pair urls valid
                      (AList.update exchange q prices))) \<noteq> Inl TickerError"
    proof (cases skip)
      case True
      with Cons show ?thesis by simp
    next
      case False
      have "and_then (quote float_str pair urls url j)
                  (\<lambda>(exchange, q). collect_prices float_str pair urls valid
                      (AList.update exchange q prices)) \<noteq> Inl TickerError"
      proof (intro and_then_no_ticker_error quote_no_ticker_error Cons.prems)
        fix v :: "string \<times> rat \<times> rat"
        show "(case v of (exchange, q) \<Rightarrow>
                 collect_prices float_str pair urls valid (AList.update exchange q prices))
              \<noteq> Inl TickerError"
          using Cons by (cases v) simp
      qed
      with False show ?thesis by simp
    qed
  qed
qed

lemma valid_responses_no_ticker_error: "valid_responses responses \<noteq> Inl TickerError"
proof (induction responses rule: valid_responses.induct)
  case 1
  show ?case by simp
next
  case (2 xs)
  then show ?case by simp
next
  case (3 url status_code body xs)
  then show ?case
    by (cases body) (simp_all add: and_then_no_ticker_error)
qed

lemma format_urls_ok:
  "CHR ''/'' \<in> set pair \<Longrightarrow> set (map fst table) \<subseteq> set (map fst URLS) \<Longrightarrow>
     \<exists>urls. format_urls pair table = Inr urls"
proof (induction table)
  case Nil
  show ?case by simp
next
  case (Cons x table)
  obtain k before after where x: "x = (k, before, after)" by (cases x)
  with Cons.prems obtain s where "get_ticker_symbol pair k = Inr s"
    using get_ticker_symbol_ok [of pair k] by auto
  moreover obtain urls where "format_urls pair table = Inr urls"
    using Cons by auto
  ultimately show ?case by (simp add: x and_then_def)
qed

lemma format_urls_raise:
  "CHR ''/'' \<notin> set pair \<Longrightarrow> format_urls pair URLS = Inl TickerError"
  using get_ticker_symbol_raise [of pair "''btc-e''"]
  by (simp add: URLS_def and_then_def)

lemma prices_of_ticker_error:
  "(prices_of float_str pair responses = Inl TickerError) = (CHR ''/'' \<notin> set pair)"
proof (cases "CHR ''/'' \<in> set pair")
  case True
  then obtain urls where "format_urls pair URLS = Inr urls"
    using format_urls_ok [of pair URLS] by auto
  then have "prices_of float_str pair responses =
      and_then (valid_responses responses) (\<lambda>valid. collect_prices float_str pair urls valid [])"
    by (simp add: prices_of_def and_then_def)
  with True show ?thesis
    by (simp add: and_then_no_ticker_error valid_responses_no_ticker_error
          collect_prices_no_ticker_error)
next
  case False
  then show ?thesis
    by (simp add: prices_of_def format_urls_raise and_then_def)
qed

lemma np_average_no_ticker_error: "np_average a weights \<noteq> Inl TickerError"
  by (simp add: np_average_def)

lemma sum_list_map2_times:
  "sum_list (map2 (*) (map f xs) (map g xs)) = sum_list (map (\<lambda>x. f x * g x) xs)"
  by (induction xs) simp_all

lemma np_average_VWAP:
  "sum_list (map (\<lambda>x. snd (snd x)) prices) \<noteq> 0 \<Longrightarrow>
     np_average (map (\<lambda>x. fst (snd x)) prices) (map (\<lambda>x. snd (snd x)) prices) = Inr (VWAP prices)"
proof -
  have a: "(\<lambda>(exchange, p, v). p * v) = (\<lambda>x. fst (snd x) * snd (snd x))"
    by auto
  have b: "(\<lambda>(exchange, p, v). v) = (\<lambda>x :: string \<times> rat \<times> rat. snd (snd x))"
    by auto
  assume "sum_list (map (\<lambda>x. snd (snd x)) prices) \<noteq> 0"
  then show ?thesis
    by (simp add: np_average_def VWAP_def sum_list_map2_times a b)
qed

lemma price_ticker_error:
  "(price float_str pair responses = Inl TickerError) =
     (prices_of float_str pair responses = Inr [] \<or> CHR ''/'' \<notin> set pair)"
proof (cases "prices_of float_str pair responses")
  case (Inl e)
  then show ?thesis
    using prices_of_ticker_error [of float_str pair responses]
    by (auto simp add: price_def and_then_def)
next
  case (Inr prices)
  then have "CHR ''/'' \<in> set pair"
    using prices_of_ticker_error [of float_str pair responses] by auto
  with Inr show ?thesis
    by (cases prices) (simp_all add: price_def and_then_def np_average_no_ticker_error)
qed

lemma price_VWAP:
  "prices_of float_str pair responses = Inr prices \<Longrightarrow> prices \<noteq> [] \<Longrightarrow>
   sum_list (map (\<lambda>x. snd (snd x)) prices) \<noteq> 0 \<Longrightarrow>
     price float_str pair responses = Inr (VWAP prices)"
  by (simp add: price_def and_then_def np_average_VWAP)

lemmas price_eval =
  price_def prices_of_def and_then_def URLS_def get_ticker_symbol_def upper_def upper_char_def
  format_1_0_def coinbase_quote_def bitstamp_quote_def coinbase_url_def bitstamp_url_def
  poloniex_url_def poloniex_other_pairs_def
  invalid_error_def quote_def urls_rev_def ticker_data_def RESPONSES_def RESPONSES_price_def
  RESPONSES_volume_def np_average_def no_float_str_def

lemma urls_btc_usd:
  "format_urls ''btc/usd'' URLS =
     Inr [(''btc-e'', ''https://btc-e.com/api/2/btc_usd/ticker''),
      (''bitfinex'', ''https://api.bitfinex.com/v1/pubticker/btcusd''),
      (''bittrex'', ''https://bittrex.com/api/v1.1/public/getmarketsummary?market=USDT-BTC''),
      (''bitstamp'', ''https://www.bitstamp.net/api/v2/ticker/btcusd''),
      (''coinbase'', ''https://api.exchange.coinbase.com/products/btc-usd/ticker''),
      (''poloniex'', ''https://poloniex.com/public?command=returnTicker&currencyPair=USDT_BTC'')]"
  by (simp add: URLS_def get_ticker_symbol_def and_then_def upper_def upper_char_def format_1_0_def)

text \<open>
  Claim C7, as the code has it. \<^verbatim>\<open>price\<close> raises \<open>TickerError\<close> exactly when the pair
  has no \<open>/\<close> or the loop over the valid responses ends with an empty dictionary of
  quotes. When the loop ends with quotes whose volumes do not sum to zero, \<^verbatim>\<open>price\<close>
  returns their volume-weighted average. Two quotes (price 10, volume 1) and (price 20,
  volume 3) give 17.5; one quote (price 100, volume 5) among six exchanges of which
  five failed gives 100; six failures raise \<open>TickerError\<close>.
\<close>

theorem price_raises_or_averages:
  "(price float_str pair responses = Inl TickerError) =
     (prices_of float_str pair responses = Inr [] \<or> CHR ''/'' \<notin> set pair)
   \<and> (prices_of float_str pair responses = Inr prices \<and> prices \<noteq> []
        \<and> sum_list (map (\<lambda>x. snd (snd x)) prices) \<noteq> 0 \<longrightarrow>
      price float_str pair responses = Inr (VWAP prices))
   \<and> price no_float_str ''btc/usd'' [coinbase_quote 10 1, bitstamp_quote 20 3] = Inr (35 / 2)
   \<and> price no_float_str ''btc/usd''
         [NoResponse, NoResponse, NoResponse, Response bitstamp_url 500 None,
          coinbase_quote 100 5, NoResponse] = Inr 100
   \<and> price no_float_str ''btc/usd''
         [NoResponse, NoResponse, NoResponse, Response bitstamp_url 500 None,
          Response coinbase_url 404 (Some (JObj [(''message'', JStr ''NotFound'')])),
          NoResponse] = Inl TickerError"
proof -
  have e1: "price no_float_str ''btc/usd'' [coinbase_quote 10 1, bitstamp_quote 20 3] = Inr (35 / 2)"
    by (simp add: price_def prices_of_def urls_btc_usd) (simp add: price_eval)
  have e2: "price no_float_str ''btc/usd''
         [NoResponse, NoResponse, NoResponse, Response bitstamp_url 500 None,
          coinbase_quote 100 5, NoResponse] = Inr 100"
    by (simp add: price_def prices_of_def urls_btc_usd) (simp add: price_eval)
  have e3: "price no_float_str ''btc/usd''
         [NoResponse, NoResponse, NoResponse, Response bitstamp_url 500 None,
          Response coinbase_url 404 (Some (JObj [(''message'', JStr ''NotFound'')])),
          NoResponse] = Inl TickerError"
    by (simp add: price_def prices_of_def urls_btc_usd) (simp add: price_eval)
  show ?thesis
    using price_ticker_error [of float_str pair responses]
      price_VWAP [of float_str pair responses prices] e1 e2 e3
    by blast
qed

theorem price_raises_or_averages_witness:
  "prices_of no_float_str ''btc/usd'' [coinbase_quote 10 1, bitstamp_quote 20 3] =
     Inr [(''coinbase'', 10, 1), (''bitstamp'', 20, 3)]
   \<and> [(''coinbase'', 10 :: rat, 1 :: rat), (''bitstamp'', 20, 3)] \<noteq> []
   \<and> sum_list (map (\<lambda>x. snd (snd x)) [(''coinbase'', 10 :: rat, 1 :: rat), (''bitstamp'', 20, 3)]) \<noteq> 0
   \<and> price no_float_str ''btc/usd'' [coinbase_quote 10 1, bitstamp_quote 20 3] =
     Inr (VWAP [(''coinbase'', 10, 1), (''bitstamp'', 20, 3)])
   \<and> VWAP [(''coinbase'', 10, 1), (''bitstamp'', 20, 3)] = 35 / 2
   \<and> CHR ''/'' \<in> set ''btc/usd''
   \<and> price no_float_str ''btc/usd'' [coinbase_quote 10 1, bitstamp_quote 20 3] \<noteq> Inl TickerError"
proof -
  have p: "prices_of no_float_str ''btc/usd'' [coinbase_quote 10 1, bitstamp_quote 20 3] =
     Inr [(''coinbase'', 10, 1), (''bitstamp'', 20, 3)]"
    by (simp add: prices_of_def urls_btc_usd) (simp add: price_eval)
  have n: "[(''coinbase'', 10 :: rat, 1 :: rat), (''bitstamp'', 20, 3)] \<noteq> []"
    by simp
  have s: "sum_list (map (\<lambda>x. snd (snd x)) [(''coinbase'', 10 :: rat, 1 :: rat), (''bitstamp'', 20, 3)]) \<noteq> 0"
    by simp
  have v: "VWAP [(''coinbase'', 10, 1), (''bitstamp'', 20, 3)] = 35 / 2"
    by (simp add: VWAP_def)
  have c: "CHR ''/'' \<in> set ''btc/usd''"
    by simp
  have q: "Inr [(''coinbase'', 10 :: rat, 1 :: rat), (''bitstamp'', 20, 3)] \<noteq>
      (Inr [] :: py_error + (string \<times> rat \<times> rat) list)"
    by simp
  show ?thesis
    using p n s v c q
      price_raises_or_averages
        [of no_float_str "''btc/usd''" "[coinbase_quote 10 1, bitstamp_quote 20 3]"
            "[(''coinbase'', 10, 1), (''bitstamp'', 20, 3)]"]
    by metis
qed

text \<open>
  The two directions that fail. A single quote with volume 0 is collected, and the
  average raises \<open>ZeroDivisionError\<close>: a quote was yielded, and neither the error of the
  claim nor a price comes back. A poloniex response with status 200 that does not list
  the pair raises \<open>KeyError\<close> from the loop: no exchange yielded a quote, and the error
  is not \<open>TickerError\<close>.
\<close>

theorem price_other_exceptions:
  "prices_of no_float_str ''btc/usd'' [coinbase_quote 100 0] = Inr [(''coinbase'', 100, 0)]
   \<and> price no_float_str ''btc/usd'' [coinbase_quote 100 0] = Inl ZeroDivisionError
   \<and> prices_of no_float_str ''btc/usd''
         [NoResponse, NoResponse, NoResponse, NoResponse, NoResponse, poloniex_other_pairs] =
       Inl KeyError
   \<and> price no_float_str ''btc/usd''
         [NoResponse, NoResponse, NoResponse, NoResponse, NoResponse, poloniex_other_pairs] =
       Inl KeyError"
  by (simp add: price_def prices_of_def urls_btc_usd) (simp add: price_eval)

end
